theory Spec2Isabelle
  imports Main "HOL-Library.Sublist"
begin

section \<open>JavaScript values, objects and exceptions\<close>

text \<open>
  The calendar fields that \<open>Date.prototype.format\<close> reads from a JavaScript date:
  \<open>getFullYear()\<close>, \<open>getMonth() + 1\<close>, \<open>getDate()\<close>, \<open>getHours()\<close>,
  \<open>getMinutes()\<close> and \<open>getSeconds()\<close>.
\<close>

record date =
  fullYear :: nat
  monthNumber :: nat
  dayOfMonth :: nat
  hours :: nat
  minutes :: nat
  seconds :: nat

text \<open>
  The scalar values a record field or a statement parameter holds. Numbers are the
  integral ones (identifiers, counts); fractional numbers are outside the model.
\<close>

datatype js_value =
    JNull
  | JUndefined
  | JBool bool
  | JNum int
  | JStr string
  | JDate date

text \<open>
  A plain object is the list of its own enumerable properties in \<open>Object.keys\<close> order:
  keys are pairwise distinct, and a new key goes to the end. (All keys used here are
  column names and \<open>$\<close>-prefixed column names; JavaScript moves integer-like keys to
  the front, which such names are not.)
\<close>

type_synonym js_object = "(string \<times> js_value) list"

text \<open>\<open>obj[k]\<close>: a missing property reads as \<open>undefined\<close>.\<close>

definition js_get :: "js_object \<Rightarrow> string \<Rightarrow> js_value" where
  "js_get obj k = (case map_of obj k of None \<Rightarrow> JUndefined | Some v \<Rightarrow> v)"

text \<open>\<open>obj[k] = v\<close>: overwrite in place, or append a new property.\<close>

fun js_set :: "js_object \<Rightarrow> string \<Rightarrow> js_value \<Rightarrow> js_object" where
  "js_set [] k v = [(k, v)]"
| "js_set ((k', v') # rest) k v =
     (if k' = k then (k, v) # rest else (k', v') # js_set rest k v)"

text \<open>
  What the code can raise: \<open>new Error(message)\<close>, thrown by the operations themselves,
  and the engine's \<open>TypeError\<close> for reading property \<open>p\<close> of \<open>null\<close>
  (\<open>TypeError p\<close>).
\<close>

datatype js_exn = Error string | TypeError string

definition errors :: "string list" where
  "errors = [''Schema not defined.'', ''Primary key not defined.'',
     ''Parameter builder must be QueryBuilder type.'',
     ''Parameter builder must be OrderBuilder type.'', ''Timeout'']"

section \<open>String primitives\<close>

text \<open>\<open>s.indexOf(c)\<close> for a one-character needle: the first position, or \<open>-1\<close>.\<close>

fun indexOf :: "string \<Rightarrow> char \<Rightarrow> int" where
  "indexOf [] c = -1"
| "indexOf (x # xs) c =
     (if x = c then 0 else (let i = indexOf xs c in if i = -1 then -1 else i + 1))"

text \<open>\<open>s.substring(start)\<close>: a negative start counts as 0, one past the end as the end.\<close>

definition substring :: "string \<Rightarrow> int \<Rightarrow> string" where
  "substring s start = drop (nat start) s"

text \<open>\<open>xs.join(sep)\<close> on an array of strings.\<close>

fun join :: "string list \<Rightarrow> string \<Rightarrow> string" where
  "join [] sep = []"
| "join [x] sep = x"
| "join (x # y # ys) sep = x @ sep @ join (y # ys) sep"

text \<open>\<open>s.replace(/c/g, r)\<close> for a one-character pattern: every occurrence, left to right.\<close>

fun replace_all :: "string \<Rightarrow> char \<Rightarrow> string \<Rightarrow> string" where
  "replace_all [] c r = []"
| "replace_all (x # xs) c r = (if x = c then r @ replace_all xs c r else x # replace_all xs c r)"

text \<open>The decimal digits of a natural number, most significant first.\<close>

fun digits :: "nat \<Rightarrow> string" where
  "digits n = (if n < 10 then [''0123456789'' ! n] else digits (n div 10) @ [''0123456789'' ! (n mod 10)])"

declare digits.simps [simp del]

text \<open>
  \<open>'' + n\<close> for an integral number \<open>n\<close>. Up to \<open>2^53\<close> in magnitude, where every
  integer is a number of the engine, it writes the plain decimal digits, with a minus
  sign below zero. Above, it writes the shortest digits that identify the floating-point
  value, filled up with zeros, and from \<open>10^21\<close> on exponent notation (\<open>1e+21\<close>);
  that rendering is outside the model and is the parameter \<open>large\<close>.
\<close>

definition number_toString :: "(int \<Rightarrow> string) \<Rightarrow> int \<Rightarrow> string" where
  "number_toString large n =
     (if \<bar>n\<bar> \<le> 2 ^ 53
      then (if n < 0 then CHR ''-'' # digits (nat (- n)) else digits (nat n))
      else large n)"

section \<open>Schema names\<close>

text \<open>\<open>prepareSchema\<close> (sqlite.js, lines 48-54).\<close>

definition prepareSchema :: "string \<Rightarrow> string" where
  "prepareSchema name =
     (let index = indexOf name CHR ''#'';
          index = (if index = 0 then indexOf name CHR ''/'' else index)
      in substring name (index + 1))"

section \<open>Schema registry and builders\<close>

text \<open>
  \<open>builders.schema(name)\<close> and \<open>builders.primaryKey(name)\<close> live in builders.js, which
  is not among the sources; the registry they read is a parameter of every operation.
  A schema object is used through \<open>Object.keys\<close> only, so it is the list of its column
  names in that order. A primary-key descriptor is read through \<open>name\<close> and
  \<open>insert\<close> (true when the caller supplies the key on insert). Both lookups answer
  \<open>null\<close> (\<open>None\<close>) for a name they do not know.
\<close>

type_synonym schema = "string list"

record primary =
  pk_name :: string
  pk_insert :: bool

record registry =
  reg_schema :: "string \<Rightarrow> schema option"
  reg_primaryKey :: "string \<Rightarrow> primary option"

record QueryBuilder =
  qb_builder :: "string list"
  qb_params :: js_object
  qb_schema :: "schema option"

record order_item =
  ord_name :: string
  ord_type :: string

record OrderBuilder =
  ob_builder :: "order_item list"

record ParameterBuilder =
  pb_params :: js_object
  pb_schema :: "schema option"

text \<open>
  Modelled from the spec: \<open>QueryBuilder.prototype.hasValue\<close> is defined in builders.js,
  which is not among the sources; the spec describes it as "has accumulated at least one
  fragment".
\<close>

definition hasValue :: "QueryBuilder \<Rightarrow> bool" where
  "hasValue qb = (qb_builder qb \<noteq> [])"

text \<open>
  Modelled from the spec: the \<open>ParameterBuilder\<close> constructor and its \<open>add\<close> are defined
  in builders.js, which is not among the sources; the spec describes \<open>add(column, value)\<close>
  as appending one entry to the accumulated \<open>(name, value)\<close> pairs, which start empty.
\<close>

definition new_ParameterBuilder :: ParameterBuilder where
  "new_ParameterBuilder = \<lparr>pb_params = [], pb_schema = None\<rparr>"

definition add :: "ParameterBuilder \<Rightarrow> string \<Rightarrow> js_value \<Rightarrow> ParameterBuilder" where
  "add pb name v = pb\<lparr>pb_params := js_set (pb_params pb) name v\<rparr>"

text \<open>
  Modelled from the spec: \<open>Date.prototype.format\<close> is defined in utils.js, which is not
  among the sources. The spec fixes its output for the one pattern the code passes,
  \<open>yyyy-MM-dd HH:mm:ss\<close>: fixed-width, zero-padded, 24-hour clock, no timezone
  conversion.
\<close>

definition padLeft :: "string \<Rightarrow> nat \<Rightarrow> string" where
  "padLeft s w = replicate (w - length s) CHR ''0'' @ s"

definition format_date :: "date \<Rightarrow> string" where
  "format_date d =
     padLeft (digits (fullYear d)) 4 @ ''-'' @ padLeft (digits (monthNumber d)) 2 @ ''-'' @
     padLeft (digits (dayOfMonth d)) 2 @ '' '' @ padLeft (digits (hours d)) 2 @ '':'' @
     padLeft (digits (minutes d)) 2 @ '':'' @ padLeft (digits (seconds d)) 2"

text \<open>
  What a caller may pass where a builder is expected, as far as \<open>=== null\<close> and
  \<open>instanceof\<close> tell the cases apart.
\<close>

datatype js_arg =
    Null
  | Undefined
  | IsQueryBuilder QueryBuilder
  | IsOrderBuilder OrderBuilder
  | IsParameterBuilder ParameterBuilder
  | IsObject js_object

text \<open>
  The object \<open>{ id: obj.lastID, changes: obj.changes }\<close> that \<open>execute\<close> hands to
  its callback.
\<close>

record exec_data =
  data_id :: int
  data_changes :: int

section \<open>Parameter normalization\<close>

text \<open>
  \<open>SQLite.prototype.make\<close> (lines 196-224) takes a string or an object and returns a
  string or an object.
\<close>

datatype make_arg =
    MakeNull
  | MakeUndefined
  | MakeString string
  | MakeQuery QueryBuilder
  | MakeParameter ParameterBuilder
  | MakeObject js_object

datatype made = Text string | Parameters js_object

text \<open>
  The \<open>forEach\<close> over \<open>Object.keys(value)\<close>, with \<open>arg\<close> as the accumulator;
  \<open>utils.isDate(val)\<close> holds of the \<open>JDate\<close> values.
\<close>

fun make_each :: "js_object \<Rightarrow> js_object \<Rightarrow> js_object" where
  "make_each [] arg = arg"
| "make_each ((k, val) # rest) arg =
     make_each rest
       (js_set arg (CHR ''$'' # k) (case val of JDate d \<Rightarrow> JStr (format_date d) | _ \<Rightarrow> val))"

fun make :: "make_arg \<Rightarrow> made" where
  "make MakeNull = Parameters []"
| "make MakeUndefined = Parameters []"
| "make (MakeString v) = Text (replace_all (replace_all v CHR ''{'' ''$'') CHR ''}'' [])"
| "make (MakeQuery qb) = Parameters (make_each (qb_params qb) [])"
| "make (MakeParameter pb) = Parameters (make_each (pb_params pb) [])"
| "make (MakeObject v) = Parameters (make_each v [])"

section \<open>The driver boundary\<close>

text \<open>
  The sqlite3 driver is outside the program. An operation is run against the reply the
  driver gives to it; its outcome is the list of statements it handed to the driver, in
  order, and how it ended: an exception at the call site, an exception inside the
  completion function the driver calls back, or the caller's callback invoked with its
  arguments.
\<close>

datatype driver_call =
    DbPrepare made made
  | DbRun made made
  | DbGet made made
  | DbAll made made

datatype 'a ending =
    ThrownAtCallSite js_exn
  | ThrownInCompletion js_exn
  | CallbackInvoked 'a

type_synonym 'a outcome = "driver_call list \<times> 'a ending"

text \<open>
  Replies to \<open>prepare\<close> followed by \<open>run\<close>: \<open>prepare\<close> reports an error; \<open>prepare\<close>
  reports \<open>null\<close> and \<open>run\<close> an error; or both report \<open>null\<close> and the statement
  object carries \<open>lastID\<close> and \<open>changes\<close>.
\<close>

datatype exec_reply =
    PrepareFailed string
  | RunFailed string
  | RunDone int int

text \<open>\<open>SQLite.prototype.execute\<close> (lines 117-141).\<close>

definition execute ::
  "string \<Rightarrow> make_arg \<Rightarrow> exec_reply \<Rightarrow> (string option \<times> exec_data option \<Rightarrow> 'a ending) \<Rightarrow> 'a outcome"
where
  "execute sql params reply callback =
     (let params = make params; text = make (MakeString sql) in
      case reply of
        PrepareFailed err \<Rightarrow> ([DbPrepare text params], callback (Some err, None))
      | RunFailed err \<Rightarrow> ([DbPrepare text params, DbRun text params], callback (Some err, None))
      | RunDone lastID changes \<Rightarrow>
          ([DbPrepare text params, DbRun text params],
           callback (None, Some \<lparr>data_id = lastID, data_changes = changes\<rparr>)))"

text \<open>
  \<open>SQLite.prototype.get\<close> (lines 174-189) and \<open>scalar\<close> (lines 163-165). The driver
  replies with an error or \<open>null\<close>, and a row or \<open>undefined\<close>.
\<close>

type_synonym get_reply = "string option \<times> js_object option"

definition get ::
  "string \<Rightarrow> make_arg \<Rightarrow> get_reply \<Rightarrow> (string option \<times> js_object option \<Rightarrow> 'a ending) \<Rightarrow> 'a outcome"
where
  "get sql params reply callback =
     (case reply of (err, data) \<Rightarrow>
        ([DbGet (make (MakeString sql)) (make params)],
         callback (err, if err = None then data else None)))"

definition scalar ::
  "string \<Rightarrow> make_arg \<Rightarrow> get_reply \<Rightarrow> (string option \<times> js_object option \<Rightarrow> 'a ending) \<Rightarrow> 'a outcome"
where
  "scalar sql params reply callback = get sql params reply callback"

text \<open>\<open>SQLite.prototype.reader\<close> (lines 233-248).\<close>

type_synonym all_reply = "string option \<times> js_object list option"

definition reader ::
  "string \<Rightarrow> make_arg \<Rightarrow> all_reply \<Rightarrow> (string option \<times> js_object list option \<Rightarrow> 'a ending) \<Rightarrow> 'a outcome"
where
  "reader sql params reply callback =
     (case reply of (err, data) \<Rightarrow>
        ([DbAll (make (MakeString sql)) (make params)],
         callback (err, if err = None then Some (case data of None \<Rightarrow> [] | Some rows \<Rightarrow> rows) else None)))"

section \<open>Statement operations\<close>

text \<open>
  The builder block shared by \<open>count\<close> (lines 270-281) and \<open>findAll\<close> (lines
  323-335): \<open>null\<close> passes, anything that is not a \<open>QueryBuilder\<close> throws
  \<open>errors[2]\<close>, and a builder yields the \<open>WHERE\<close> text and gets the schema
  assigned. The result is the \<open>where\<close> text and the builder as passed on.
\<close>

definition builder_where :: "js_arg \<Rightarrow> schema \<Rightarrow> js_exn + (string \<times> make_arg)" where
  "builder_where builder obj =
     (case builder of
        Null \<Rightarrow> Inr ([], MakeNull)
      | IsQueryBuilder qb \<Rightarrow>
          Inr (if hasValue qb then '' WHERE '' @ join (qb_builder qb) '' '' else [],
               MakeQuery (qb\<lparr>qb_schema := Some obj\<rparr>))
      | _ \<Rightarrow> Inl (Error (errors ! 2)))"

text \<open>
  \<open>SQLite.prototype.count\<close> (lines 257-287). The two-argument call
  \<open>count(schema, callback)\<close> is the call with \<open>builder = null\<close>.
\<close>

definition count ::
  "registry \<Rightarrow> string \<Rightarrow> js_arg \<Rightarrow> get_reply \<Rightarrow> (string option \<times> js_value) outcome"
where
  "count reg schema builder reply =
     (case reg_schema reg schema of
        None \<Rightarrow> ([], ThrownAtCallSite (Error (errors ! 0)))
      | Some obj \<Rightarrow>
          (case builder_where builder obj of
             Inl e \<Rightarrow> ([], ThrownAtCallSite e)
           | Inr (where, builder) \<Rightarrow>
               scalar (''SELECT COUNT(*) As value FROM '' @ prepareSchema schema @ where) builder reply
                 (\<lambda>(err, data).
                    if err = None then
                      (case data of
                         None \<Rightarrow> ThrownInCompletion (TypeError ''value'')
                       | Some row \<Rightarrow> CallbackInvoked (err, js_get row ''value''))
                    else CallbackInvoked (err, JNum 0))))"

text \<open>The \<open>forEach\<close> over \<open>order.builder\<close> (lines 341-344), with \<open>sort\<close> as accumulator.\<close>

fun order_each :: "order_item list \<Rightarrow> string \<Rightarrow> string" where
  "order_each [] sort' = sort'"
| "order_each (item # rest) sort' =
     order_each rest
       (if ord_type item = ''desc''
        then sort' @ (if length sort' > 0 then '', '' else []) @ ord_name item @ '' DESC''
        else sort')"

definition order_sort :: "js_arg \<Rightarrow> js_exn + string" where
  "order_sort order =
     (case order of
        Null \<Rightarrow> Inr []
      | IsOrderBuilder ob \<Rightarrow> Inr (order_each (ob_builder ob) [])
      | _ \<Rightarrow> Inl (Error (errors ! 3)))"

text \<open>The statement before pagination (lines 347-348).\<close>

definition select_query :: "string list \<Rightarrow> string \<Rightarrow> string \<Rightarrow> string \<Rightarrow> string" where
  "select_query column schema where sort' =
     ''SELECT '' @ join column '', '' @ '' FROM '' @ prepareSchema schema @ where @
       (if length sort' > 0 then '' ORDER BY '' @ sort' else [])"

text \<open>
  \<open>SQLite.prototype.findAll\<close> up to the call of \<open>reader\<close> (lines 300-356): the
  exception thrown, or the \<open>query\<close> text and the builder handed on. An omitted
  \<open>take\<close>, \<open>skip\<close> or \<open>without\<close> is \<open>None\<close>. (The variable \<open>first\<close> is
  written and never read.) The first argument is the engine's rendering of numbers above
  \<open>2^53\<close>, for \<open>' LIMIT ' + take\<close> and \<open>' OFFSET ' + skip\<close>.
\<close>

definition findAll_query ::
  "(int \<Rightarrow> string) \<Rightarrow> registry \<Rightarrow> string \<Rightarrow> js_arg \<Rightarrow> js_arg \<Rightarrow> int option \<Rightarrow> int option \<Rightarrow> string list option
     \<Rightarrow> js_exn + (string \<times> make_arg)"
where
  "findAll_query large reg schema builder order take' skip' without =
     (case reg_schema reg schema of
        None \<Rightarrow> Inl (Error (errors ! 0))
      | Some obj \<Rightarrow>
          (let take' = (case take' of None \<Rightarrow> 0 | Some n \<Rightarrow> n);
               skip' = (case skip' of None \<Rightarrow> 0 | Some n \<Rightarrow> n);
               without = (case without of None \<Rightarrow> [] | Some w \<Rightarrow> w);
               column = filter (\<lambda>c. c \<notin> set without) obj
           in case builder_where builder obj of
                Inl e \<Rightarrow> Inl e
              | Inr (where, builder) \<Rightarrow>
                  (case order_sort order of
                     Inl e \<Rightarrow> Inl e
                   | Inr sort' \<Rightarrow>
                       (let query = select_query column schema where sort';
                            query =
                              (if take' \<noteq> 0 \<and> skip' \<noteq> 0 then
                                 query @ '' LIMIT '' @ number_toString large take' @ '' OFFSET '' @ number_toString large skip'
                               else if take' \<noteq> 0 then query @ '' LIMIT '' @ number_toString large take'
                               else if skip' \<noteq> 0 then query @ '' OFFSET '' @ number_toString large take'
                               else query)
                        in Inr (query, builder)))))"

text \<open>\<open>SQLite.prototype.findAll\<close> (lines 300-360) and \<open>findTop\<close> (lines 362-364).\<close>

definition findAll ::
  "(int \<Rightarrow> string) \<Rightarrow> registry \<Rightarrow> string \<Rightarrow> js_arg \<Rightarrow> js_arg \<Rightarrow> int option \<Rightarrow> int option \<Rightarrow> string list option
     \<Rightarrow> all_reply \<Rightarrow> (string option \<times> js_object list option) outcome"
where
  "findAll large reg schema builder order take' skip' without reply =
     (case findAll_query large reg schema builder order take' skip' without of
        Inl e \<Rightarrow> ([], ThrownAtCallSite e)
      | Inr (query, builder) \<Rightarrow> reader query builder reply CallbackInvoked)"

definition findTop ::
  "(int \<Rightarrow> string) \<Rightarrow> int option \<Rightarrow> registry \<Rightarrow> string \<Rightarrow> js_arg \<Rightarrow> js_arg \<Rightarrow> string list option
     \<Rightarrow> all_reply \<Rightarrow> (string option \<times> js_object list option) outcome"
where
  "findTop large top' reg schema builder order without reply =
     findAll large reg schema builder order top' (Some 0) without reply"

text \<open>\<open>SQLite.prototype.findPK\<close> (lines 374-406).\<close>

definition findPK ::
  "registry \<Rightarrow> string \<Rightarrow> js_value \<Rightarrow> string list option \<Rightarrow> get_reply
     \<Rightarrow> (string option \<times> js_object option) outcome"
where
  "findPK reg schema value without reply =
     (case reg_schema reg schema of
        None \<Rightarrow> ([], ThrownAtCallSite (Error (errors ! 0)))
      | Some obj \<Rightarrow>
          (case reg_primaryKey reg schema of
             None \<Rightarrow> ([], ThrownAtCallSite (Error (errors ! 1)))
           | Some primary \<Rightarrow>
               (let without = (case without of None \<Rightarrow> [] | Some w \<Rightarrow> w);
                    column = filter (\<lambda>c. c \<notin> set without) obj;
                    columns = join column '', '';
                    query = ''SELECT '' @ columns @ '' FROM '' @ prepareSchema schema @ '' WHERE '' @
                      pk_name primary @ ''={'' @ pk_name primary @ ''} LIMIT 1'';
                    param = js_set [] (pk_name primary) value
                in get query (MakeObject param) reply CallbackInvoked)))"

text \<open>
  The \<open>forEach\<close> of \<open>insert\<close> over \<open>Object.keys(obj)\<close> (lines 437-443), with
  \<open>column\<close>, \<open>values\<close> and \<open>parameterBuilder\<close> as accumulators.
\<close>

fun insert_each ::
  "schema \<Rightarrow> string list \<Rightarrow> js_object \<Rightarrow> string list \<times> string list \<times> ParameterBuilder
     \<Rightarrow> string list \<times> string list \<times> ParameterBuilder"
where
  "insert_each [] without value acc = acc"
| "insert_each (c # rest) without value (column, values, parameterBuilder) =
     insert_each rest without value
       (if c \<notin> set without
        then (column @ [c], values @ [''{'' @ c @ ''}''], add parameterBuilder c (js_get value c))
        else (column, values, parameterBuilder))"

text \<open>
  \<open>SQLite.prototype.insert\<close> (lines 416-453). The callback receives \<open>err\<close>, the
  caller's record and \<open>data.changes\<close>.
\<close>

definition insert_record ::
  "registry \<Rightarrow> string \<Rightarrow> js_object \<Rightarrow> string list option \<Rightarrow> exec_reply
     \<Rightarrow> (string option \<times> js_object \<times> int) outcome"
where
  "insert_record reg schema value without reply =
     (case reg_schema reg schema of
        None \<Rightarrow> ([], ThrownAtCallSite (Error (errors ! 0)))
      | Some obj \<Rightarrow>
          (let without = (case without of None \<Rightarrow> [] | Some w \<Rightarrow> w);
               primary = reg_primaryKey reg schema;
               parameterBuilder = new_ParameterBuilder\<lparr>pb_schema := Some obj\<rparr>;
               without =
                 (case primary of
                    None \<Rightarrow> without
                  | Some p \<Rightarrow> if \<not> pk_insert p then without @ [pk_name p] else without)
           in case insert_each obj without value ([], [], parameterBuilder) of
                (column, values, parameterBuilder) \<Rightarrow>
                  (let query = ''INSERT INTO '' @ prepareSchema schema @ ''('' @ join column '','' @
                         '') VALUES('' @ join values '','' @ '')''
                   in execute query (MakeParameter parameterBuilder) reply
                        (\<lambda>(err, data).
                           case (if err = None then
                                   (case primary of
                                      None \<Rightarrow> Inl (TypeError ''name'')
                                    | Some p \<Rightarrow>
                                        (case data of
                                           None \<Rightarrow> Inl (TypeError ''id'')
                                         | Some d \<Rightarrow> Inr (js_set value (pk_name p) (JNum (data_id d)))))
                                 else Inr value) of
                             Inl e \<Rightarrow> ThrownInCompletion e
                           | Inr value \<Rightarrow>
                               (case data of
                                  None \<Rightarrow> ThrownInCompletion (TypeError ''changes'')
                                | Some d \<Rightarrow> CallbackInvoked (err, value, data_changes d))))))"

text \<open>
  The \<open>forEach\<close> of \<open>update\<close> over \<open>Object.keys(obj)\<close> (lines 484-490), with
  \<open>values\<close> and \<open>parameterBuilder\<close> as accumulators.
\<close>

fun update_each ::
  "schema \<Rightarrow> string list \<Rightarrow> js_object \<Rightarrow> string list \<times> ParameterBuilder
     \<Rightarrow> string list \<times> ParameterBuilder"
where
  "update_each [] without value acc = acc"
| "update_each (c # rest) without value (values, parameterBuilder) =
     update_each rest without value
       (if c \<notin> set without then values @ [c @ ''={'' @ c @ ''}''] else values,
        add parameterBuilder c (js_get value c))"

text \<open>\<open>SQLite.prototype.update\<close> (lines 463-499).\<close>

definition update ::
  "registry \<Rightarrow> string \<Rightarrow> js_object \<Rightarrow> string list option \<Rightarrow> exec_reply
     \<Rightarrow> (string option \<times> js_object \<times> int) outcome"
where
  "update reg schema value without reply =
     (case reg_schema reg schema of
        None \<Rightarrow> ([], ThrownAtCallSite (Error (errors ! 0)))
      | Some obj \<Rightarrow>
          (let without = (case without of None \<Rightarrow> [] | Some w \<Rightarrow> w);
               parameterBuilder = new_ParameterBuilder\<lparr>pb_schema := Some obj\<rparr>
           in case reg_primaryKey reg schema of
                None \<Rightarrow> ([], ThrownAtCallSite (Error (errors ! 1)))
              | Some primary \<Rightarrow>
                  (let without = without @ [pk_name primary] in
                   case update_each obj without value ([], parameterBuilder) of
                     (values, parameterBuilder) \<Rightarrow>
                       (let query = ''UPDATE '' @ prepareSchema schema @ '' SET '' @ join values '','' @
                              '' WHERE '' @ pk_name primary @ ''={'' @ pk_name primary @ ''}''
                        in execute query (MakeParameter parameterBuilder) reply
                             (\<lambda>(err, data).
                                case data of
                                  None \<Rightarrow> ThrownInCompletion (TypeError ''changes'')
                                | Some d \<Rightarrow> CallbackInvoked (err, value, data_changes d))))))"

text \<open>\<open>SQLite.prototype.delete\<close> (lines 508-532).\<close>

definition delete ::
  "registry \<Rightarrow> string \<Rightarrow> js_object \<Rightarrow> exec_reply \<Rightarrow> (string option \<times> js_object \<times> int) outcome"
where
  "delete reg schema value reply =
     (case reg_schema reg schema of
        None \<Rightarrow> ([], ThrownAtCallSite (Error (errors ! 0)))
      | Some obj \<Rightarrow>
          (let parameterBuilder = new_ParameterBuilder\<lparr>pb_schema := Some obj\<rparr>
           in case reg_primaryKey reg schema of
                None \<Rightarrow> ([], ThrownAtCallSite (Error (errors ! 1)))
              | Some primary \<Rightarrow>
                  (let parameterBuilder =
                         add parameterBuilder (pk_name primary) (js_get value (pk_name primary));
                       query = ''DELETE FROM '' @ prepareSchema schema @ '' WHERE '' @
                         pk_name primary @ ''={'' @ pk_name primary @ ''}''
                   in execute query (MakeParameter parameterBuilder) reply
                        (\<lambda>(err, data).
                           case data of
                             None \<Rightarrow> ThrownInCompletion (TypeError ''changes'')
                           | Some d \<Rightarrow> CallbackInvoked (err, value, data_changes d)))))"

section \<open>Specification-side definitions and example data\<close>

text \<open>
  The dates that the pattern \<open>yyyy-MM-dd HH:mm:ss\<close> renders in its fixed width: calendar
  fields in range, and a year of at most four digits.
\<close>

definition calendar_date :: "date \<Rightarrow> bool" where
  "calendar_date d =
     (fullYear d < 10000 \<and> 1 \<le> monthNumber d \<and> monthNumber d \<le> 12 \<and>
      1 \<le> dayOfMonth d \<and> dayOfMonth d \<le> 31 \<and>
      hours d < 24 \<and> minutes d < 60 \<and> seconds d < 60)"

text \<open>
  The shape of \<open>yyyy-MM-dd HH:mm:ss\<close>: a decimal digit wherever the pattern has a
  letter (written \<open>9\<close> below) and the pattern's own punctuation elsewhere, 19
  characters in all.
\<close>

definition timestamp_shape :: "string \<Rightarrow> bool" where
  "timestamp_shape s =
     list_all2 (\<lambda>c p. if p = CHR ''9'' then c \<in> set ''0123456789'' else c = p) s ''9999-99-99 99:99:99''"

text \<open>
  Reading a decimal numeral back: the value of a digit, of a digit string (most
  significant digit first, \<open>acc\<close> the value read so far), and of a numeral with an
  optional minus sign.
\<close>

definition digit_value :: "char \<Rightarrow> nat" where
  "digit_value c = of_char c - 48"

fun read_digits :: "string \<Rightarrow> nat \<Rightarrow> nat" where
  "read_digits [] acc = acc"
| "read_digits (c # cs) acc = read_digits cs (10 * acc + digit_value c)"

definition read_number :: "string \<Rightarrow> int" where
  "read_number s =
     (case s of
        [] \<Rightarrow> 0
      | c # ds \<Rightarrow> if c = CHR ''-'' then - int (read_digits ds 0) else int (read_digits s 0))"

text \<open>
  A decimal numeral as the engine writes it: after an optional minus sign, one or more
  digits, with a leading zero only in the numeral \<open>0\<close>.
\<close>

definition decimal_numeral :: "string \<Rightarrow> bool" where
  "decimal_numeral s =
     (let ds = (case s of [] \<Rightarrow> [] | c # r \<Rightarrow> if c = CHR ''-'' then r else s)
      in ds \<noteq> [] \<and> set ds \<subseteq> set ''0123456789'' \<and> (hd ds = CHR ''0'' \<longrightarrow> ds = ''0''))"


text \<open>
  A rendering of large numbers for the examples, none of which reaches \<open>2^53\<close>.
\<close>

definition example_large :: "int \<Rightarrow> string" where
  "example_large n = ''1e+21''"

text \<open>
  Placeholder normalization as the specification words it: every \<open>{\<close> becomes \<open>$\<close>,
  the \<open>}\<close> that matches an open \<open>{\<close> is removed, and no other character is altered.
  \<open>depth\<close> counts the braces still open.
\<close>

fun normalize_matching :: "nat \<Rightarrow> string \<Rightarrow> string" where
  "normalize_matching depth [] = []"
| "normalize_matching depth (x # xs) =
     (if x = CHR ''{'' then CHR ''$'' # normalize_matching (Suc depth) xs
      else if x = CHR ''}'' \<and> 0 < depth then normalize_matching (depth - 1) xs
      else x # normalize_matching depth xs)"

text \<open>Every \<open>}\<close> of the text closes a \<open>{\<close> that is still open.\<close>

fun braces_matched :: "nat \<Rightarrow> string \<Rightarrow> bool" where
  "braces_matched depth [] = True"
| "braces_matched depth (x # xs) =
     (if x = CHR ''{'' then braces_matched (Suc depth) xs
      else if x = CHR ''}'' then 0 < depth \<and> braces_matched (depth - 1) xs
      else braces_matched depth xs)"

text \<open>
  A registry for examples: \<open>users\<close> with the columns \<open>id\<close>, \<open>name\<close>, \<open>age\<close> and the
  engine-generated primary key \<open>id\<close>, and \<open>logs\<close> with no primary key.
\<close>

definition example_registry :: registry where
  "example_registry =
     \<lparr>reg_schema = (\<lambda>n. if n = ''users'' then Some [''id'', ''name'', ''age'']
                         else if n = ''logs'' then Some [''msg'', ''at''] else None),
      reg_primaryKey = (\<lambda>n. if n = ''users'' then Some \<lparr>pk_name = ''id'', pk_insert = False\<rparr> else None)\<rparr>"

section \<open>Basic facts\<close>

lemma errors_nth:
  "errors ! 0 = ''Schema not defined.''" "errors ! 1 = ''Primary key not defined.''"
  "errors ! Suc 0 = ''Primary key not defined.''"
  "errors ! 2 = ''Parameter builder must be QueryBuilder type.''"
  "errors ! 3 = ''Parameter builder must be OrderBuilder type.''"
  by (simp_all add: errors_def)

lemma js_set_fresh: "k \<notin> fst ` set obj \<Longrightarrow> js_set obj k v = obj @ [(k, v)]"
  by (induction obj) auto

lemma js_get_js_set: "js_get (js_set obj k v) k = v"
  by (induction obj) (auto simp: js_get_def)

lemma js_get_js_set_other: "k' \<noteq> k \<Longrightarrow> js_get (js_set obj k v) k' = js_get obj k'"
  by (induction obj) (auto simp: js_get_def)

lemma indexOf_absent: "c \<notin> set s \<Longrightarrow> indexOf s c = -1"
  by (induction s) auto

lemma indexOf_first: "c \<notin> set pre \<Longrightarrow> indexOf (pre @ c # rest) c = int (length pre)"
  by (induction pre) (auto simp: Let_def)

section \<open>Schema names\<close>

text \<open>
  What \<open>prepareSchema\<close> does on each shape of name: a leading marker with a separator,
  a leading marker with none, no marker at all, and a marker after the first character.
\<close>

lemma prepareSchema_leading_marker:
  assumes "CHR ''/'' \<notin> set pre"
  shows "prepareSchema (CHR ''#'' # pre @ CHR ''/'' # rest) = rest"
proof -
  have "indexOf (CHR ''#'' # pre @ CHR ''/'' # rest) CHR ''/'' = int (length (CHR ''#'' # pre))"
    using assms indexOf_first [of "CHR ''/''" "CHR ''#'' # pre" rest] by simp
  then show ?thesis
    by (simp add: prepareSchema_def substring_def nat_add_distrib)
qed

lemma prepareSchema_marker_no_separator:
  "CHR ''/'' \<notin> set name \<Longrightarrow> prepareSchema (CHR ''#'' # name) = CHR ''#'' # name"
  using indexOf_absent [of "CHR ''/''" "CHR ''#'' # name"]
  by (simp add: prepareSchema_def substring_def)

lemma prepareSchema_no_marker: "CHR ''#'' \<notin> set name \<Longrightarrow> prepareSchema name = name"
  by (simp add: prepareSchema_def substring_def indexOf_absent)

lemma prepareSchema_later_marker:
  assumes "CHR ''#'' \<notin> set pre" and "pre \<noteq> []"
  shows "prepareSchema (pre @ CHR ''#'' # rest) = rest"
proof -
  have "indexOf (pre @ CHR ''#'' # rest) CHR ''#'' = int (length pre)"
    using assms indexOf_first by simp
  with assms show ?thesis
    by (simp add: prepareSchema_def substring_def nat_add_distrib)
qed

text \<open>
  Claim C7, as amended. A name whose first character is the marker \<open>#\<close> loses
  everything up to and including its first separator \<open>/\<close>, and is returned unchanged
  when it has no separator. A name whose first \<open>#\<close> comes after the first character
  loses everything up to and including that \<open>#\<close>. A name with no \<open>#\<close> is returned
  unchanged.
\<close>

theorem prepareSchema_cases:
  "(CHR ''/'' \<notin> set pre \<longrightarrow> prepareSchema (CHR ''#'' # pre @ CHR ''/'' # rest) = rest)
   \<and> (CHR ''/'' \<notin> set marked \<longrightarrow> prepareSchema (CHR ''#'' # marked) = CHR ''#'' # marked)
   \<and> (CHR ''#'' \<notin> set before \<and> before \<noteq> [] \<longrightarrow> prepareSchema (before @ CHR ''#'' # after) = after)
   \<and> (CHR ''#'' \<notin> set name \<longrightarrow> prepareSchema name = name)"
  using prepareSchema_leading_marker [of pre rest] prepareSchema_marker_no_separator [of marked]
    prepareSchema_later_marker [of before after] prepareSchema_no_marker [of name]
  by blast

theorem prepareSchema_cases_witness:
  "CHR ''/'' \<notin> set ''site'' \<and> prepareSchema ''#site/users'' = ''users''
   \<and> CHR ''/'' \<notin> set ''users'' \<and> prepareSchema ''#users'' = ''#users''
   \<and> CHR ''#'' \<notin> set ''db'' \<and> ''db'' \<noteq> [] \<and> prepareSchema ''db#users'' = ''users''
   \<and> CHR ''#'' \<notin> set ''users'' \<and> prepareSchema ''users'' = ''users''"
  using prepareSchema_cases [of "''site''" "''users''" "''users''" "''db''" "''users''" "''users''"]
  by simp

text \<open>
  Claim C7 as stated fails on a name that holds the marker after its first character:
  \<open>a#b\<close> does not begin with \<open>#\<close>, and \<open>prepareSchema\<close> returns \<open>b\<close>, not the
  name itself.
\<close>

theorem prepareSchema_inner_marker_counterexample:
  "hd ''a#b'' \<noteq> CHR ''#'' \<and> prepareSchema ''a#b'' = ''b'' \<and> prepareSchema ''a#b'' \<noteq> ''a#b''"
  by (simp add: prepareSchema_def substring_def)

section \<open>Errors at the call site\<close>

text \<open>
  Claim C5. On a registered schema with no primary key, \<open>update\<close>, \<open>delete\<close> and
  \<open>findPK\<close> throw \<open>Primary key not defined.\<close> at the call site: no statement has been
  handed to the driver, whatever the driver would have replied.
\<close>

theorem primary_key_required:
  assumes "reg_schema reg schema = Some obj" and "reg_primaryKey reg schema = None"
  shows "update reg schema value without reply = ([], ThrownAtCallSite (Error ''Primary key not defined.''))
       \<and> delete reg schema value reply = ([], ThrownAtCallSite (Error ''Primary key not defined.''))
       \<and> findPK reg schema key without reply' = ([], ThrownAtCallSite (Error ''Primary key not defined.''))"
  using assms by (simp add: update_def delete_def findPK_def errors_nth Let_def)

theorem primary_key_required_witness:
  "reg_schema example_registry ''logs'' = Some [''msg'', ''at'']
   \<and> reg_primaryKey example_registry ''logs'' = None
   \<and> update example_registry ''logs'' [(''msg'', JStr ''started'')] None (RunDone 1 1) =
       ([], ThrownAtCallSite (Error ''Primary key not defined.''))
   \<and> delete example_registry ''logs'' [(''msg'', JStr ''started'')] (RunDone 1 1) =
       ([], ThrownAtCallSite (Error ''Primary key not defined.''))
   \<and> findPK example_registry ''logs'' (JNum 1) None (None, None) =
       ([], ThrownAtCallSite (Error ''Primary key not defined.''))"
proof -
  have s: "reg_schema example_registry ''logs'' = Some [''msg'', ''at'']"
    by (simp add: example_registry_def)
  have p: "reg_primaryKey example_registry ''logs'' = None"
    by (simp add: example_registry_def)
  show ?thesis
    using s p primary_key_required [OF s p, of "[(''msg'', JStr ''started'')]" None "RunDone 1 1" "JNum 1" "(None, None)"]
    by simp
qed

section \<open>Completion of \<open>count\<close>\<close>




text \<open>
  A reply with no error and no row at all, which the driver does not give to this
  aggregate statement, would make the completion read \<open>data.value\<close> of \<open>null\<close>.
\<close>

lemma count_reply_without_row:
  assumes "reg_schema reg schema = Some obj" and "builder_where builder obj = Inr (wh, b)"
  shows "snd (count reg schema builder (None, None)) = ThrownInCompletion (TypeError ''value'')"
  using assms by (simp add: count_def scalar_def get_def)

section \<open>Driver errors in \<open>insert\<close>, \<open>update\<close> and \<open>delete\<close>\<close>

lemma execute_failed:
  "snd (execute sql ps (PrepareFailed e) cb) = cb (Some e, None)"
  "snd (execute sql ps (RunFailed e) cb) = cb (Some e, None)"
  by (simp_all add: execute_def Let_def)

lemma insert_driver_error:
  assumes "reg_schema reg schema = Some obj" and "reply = PrepareFailed e \<or> reply = RunFailed e"
  shows "snd (insert_record reg schema value without reply) = ThrownInCompletion (TypeError ''changes'')"
  using assms by (auto simp: insert_record_def Let_def execute_failed split: prod.splits)

lemma update_driver_error:
  assumes "reg_schema reg schema = Some obj" and "reg_primaryKey reg schema = Some p"
    and "reply = PrepareFailed e \<or> reply = RunFailed e"
  shows "snd (update reg schema value without reply) = ThrownInCompletion (TypeError ''changes'')"
  using assms by (auto simp: update_def Let_def execute_failed split: prod.splits)

lemma delete_driver_error:
  assumes "reg_schema reg schema = Some obj" and "reg_primaryKey reg schema = Some p"
    and "reply = PrepareFailed e \<or> reply = RunFailed e"
  shows "snd (delete reg schema value reply) = ThrownInCompletion (TypeError ''changes'')"
  using assms by (auto simp: delete_def Let_def execute_failed split: prod.splits)

text \<open>
  Claim C3. A driver error in \<open>insert\<close>, \<open>update\<close> or \<open>delete\<close> should reach the
  callback as its first argument. \<open>execute\<close> passes \<open>(err, null)\<close> on, and the
  completion function of each operation then reads \<open>data.changes\<close> of that \<open>null\<close>: a
  \<open>TypeError\<close> is raised inside the completion and the callback is never invoked.
\<close>

theorem driver_error_not_delivered:
  "snd (insert_record example_registry ''users'' [(''name'', JStr ''Peter''), (''age'', JNum 28)] None
          (RunFailed ''SQLITE_CONSTRAINT'')) = ThrownInCompletion (TypeError ''changes'')
   \<and> snd (update example_registry ''users'' [(''id'', JNum 1), (''name'', JStr ''Peter''), (''age'', JNum 28)] None
          (RunFailed ''SQLITE_CONSTRAINT'')) = ThrownInCompletion (TypeError ''changes'')
   \<and> snd (delete example_registry ''users'' [(''id'', JNum 1)]
          (PrepareFailed ''SQLITE_ERROR'')) = ThrownInCompletion (TypeError ''changes'')"
  by (simp add: insert_record_def update_def delete_def example_registry_def Let_def execute_failed
      split: prod.splits)

section \<open>Statement text\<close>

lemma replace_all_append: "replace_all (s @ t) c r = replace_all s c r @ replace_all t c r"
  by (induction s) auto

lemma replace_all_absent: "c \<notin> set s \<Longrightarrow> replace_all s c r = s"
  by (induction s) auto

lemma replace_all_char: "replace_all s c [d] = map (\<lambda>x. if x = c then d else x) s"
  by (induction s) auto

lemma replace_all_empty: "replace_all s c [] = filter (\<lambda>x. x \<noteq> c) s"
  by (induction s) auto

lemma make_string_append:
  assumes "make (MakeString s) = Text u" and "CHR ''{'' \<notin> set t" and "CHR ''}'' \<notin> set t"
  shows "make (MakeString (s @ t)) = Text (u @ t)"
  using assms by (auto simp: replace_all_append replace_all_absent)

text \<open>
  Claim C9, as amended. On a statement text \<open>make\<close> replaces every \<open>{\<close> by \<open>$\<close>
  and removes every \<open>}\<close>, matched or not; no other character is altered and no value
  is substituted.
\<close>

theorem make_string_text:
  "make (MakeString s) =
     Text (filter (\<lambda>x. x \<noteq> CHR ''}'') (map (\<lambda>x. if x = CHR ''{'' then CHR ''$'' else x) s))"
  by (simp add: replace_all_char replace_all_empty)

text \<open>On a text whose every \<open>}\<close> is matched, that is the normalization of the specification.\<close>

lemma normalize_matching_eq:
  "braces_matched depth s \<Longrightarrow>
   normalize_matching depth s =
     filter (\<lambda>x. x \<noteq> CHR ''}'') (map (\<lambda>x. if x = CHR ''{'' then CHR ''$'' else x) s)"
  by (induction depth s rule: normalize_matching.induct) auto

text \<open>
  Claim C9 as stated fails on a \<open>}\<close> that matches no \<open>{\<close>: the specification's
  normalization keeps it, \<open>make\<close> removes it.
\<close>

theorem make_string_unmatched_counterexample:
  "make (MakeString ''a}b'') = Text ''ab'' \<and> normalize_matching 0 ''a}b'' = ''a}b''
   \<and> make (MakeString ''a}b'') \<noteq> Text (normalize_matching 0 ''a}b'')"
  by simp

section \<open>Pagination\<close>

lemma digit_char: "k < 10 \<Longrightarrow> ''0123456789'' ! k \<in> set ''0123456789''"
  by (rule nth_mem) simp

lemma digits_chars: "set (digits n) \<subseteq> set ''0123456789''"
proof (induction n rule: digits.induct)
  case (1 n)
  show ?case
  proof (cases "n < 10")
    case True
    then show ?thesis using digit_char [of n] by (subst digits.simps) simp
  next
    case False
    have "n mod 10 < 10" by simp
    then have "''0123456789'' ! (n mod 10) \<in> set ''0123456789''" by (rule digit_char)
    with False 1 show ?thesis by (subst digits.simps) simp
  qed
qed

lemma digits_not_empty: "digits n \<noteq> []"
  by (subst digits.simps) simp

text \<open>Reading the digits of \<open>n\<close> back gives \<open>n\<close>.\<close>

lemma below_ten: "k < 10 \<Longrightarrow> k \<in> {0, 1, 2, 3, 4, 5, 6, 7, 8, 9::nat}"
  by auto

lemma digit_value_digit: "k < 10 \<Longrightarrow> digit_value (''0123456789'' ! k) = k"
  using below_ten [of k] by (auto simp: digit_value_def)

lemma digit_zero_iff: "k < 10 \<Longrightarrow> (''0123456789'' ! k = CHR ''0'') = (k = 0)"
  using below_ten [of k] by auto

lemma read_digits_append:
  "read_digits (xs @ [c]) acc = 10 * read_digits xs acc + digit_value c"
  by (induction xs arbitrary: acc) auto

lemma read_digits_digits: "read_digits (digits n) 0 = n"
proof (induction n rule: digits.induct)
  case (1 n)
  show ?case
  proof (cases "n < 10")
    case True
    then show ?thesis by (subst digits.simps) (simp add: digit_value_digit)
  next
    case False
    with 1 have "read_digits (digits (n div 10)) 0 = n div 10" by simp
    with False show ?thesis
      by (subst digits.simps) (simp add: read_digits_append digit_value_digit)
  qed
qed

lemma digits_leading: "0 < n \<Longrightarrow> hd (digits n) \<noteq> CHR ''0''"
proof (induction n rule: digits.induct)
  case (1 n)
  show ?case
  proof (cases "n < 10")
    case True
    then have "digits n = [''0123456789'' ! n]" by (subst digits.simps) simp
    moreover have "''0123456789'' ! n \<noteq> CHR ''0''"
      using True "1.prems" digit_zero_iff [of n] by blast
    ultimately show ?thesis by simp
  next
    case False
    then have "0 < n div 10" by simp
    with False 1 have "hd (digits (n div 10)) \<noteq> CHR ''0''" by simp
    with False show ?thesis
      by (subst digits.simps) (simp add: digits_not_empty)
  qed
qed

lemma digits_no_sign: "hd (digits n) \<noteq> CHR ''-''"
proof -
  have "hd (digits n) \<in> set (digits n)" by (simp add: digits_not_empty)
  with digits_chars [of n] show ?thesis by auto
qed

lemma digits_numeral:
  "digits n \<noteq> [] \<and> set (digits n) \<subseteq> set ''0123456789'' \<and> (hd (digits n) = CHR ''0'' \<longrightarrow> digits n = ''0'')"
proof -
  have "digits n = ''0''" if "hd (digits n) = CHR ''0''"
  proof -
    from that digits_leading [of n] have "n = 0" by auto
    then show ?thesis by (simp add: digits.simps)
  qed
  with digits_not_empty digits_chars show ?thesis by blast
qed

text \<open>
  Up to \<open>2^53\<close> in magnitude a number is written as its decimal numeral: a numeral in
  the engine's form, which reads back as the number, and holds no brace.
\<close>

lemma number_toString_read:
  assumes "\<bar>n\<bar> \<le> 2 ^ 53"
  shows "read_number (number_toString large n) = n"
proof (cases "n < 0")
  case True
  with assms show ?thesis
    by (simp add: number_toString_def read_number_def read_digits_digits)
next
  case False
  obtain c cs where d: "digits (nat n) = c # cs"
    using digits_not_empty [of "nat n"] by (cases "digits (nat n)") auto
  with digits_no_sign [of "nat n"] have "c \<noteq> CHR ''-''" by simp
  moreover have "read_digits (c # cs) 0 = nat n"
    using read_digits_digits [of "nat n"] d by simp
  ultimately show ?thesis
    using assms False d by (simp add: number_toString_def read_number_def)
qed

lemma number_toString_numeral:
  assumes "\<bar>n\<bar> \<le> 2 ^ 53"
  shows "decimal_numeral (number_toString large n)"
proof (cases "n < 0")
  case True
  with assms digits_numeral [of "nat (- n)"] show ?thesis
    by (simp add: number_toString_def decimal_numeral_def)
next
  case False
  obtain c cs where d: "digits (nat n) = c # cs"
    using digits_not_empty [of "nat n"] by (cases "digits (nat n)") auto
  with digits_no_sign [of "nat n"] have "c \<noteq> CHR ''-''" by simp
  with assms False d digits_numeral [of "nat n"] show ?thesis
    by (simp add: number_toString_def decimal_numeral_def)
qed

lemma number_toString_plain:
  assumes "\<bar>n\<bar> \<le> 2 ^ 53"
  shows "CHR ''{'' \<notin> set (number_toString large n)" "CHR ''}'' \<notin> set (number_toString large n)"
  using assms digits_chars [of "nat n"] digits_chars [of "nat (- n)"]
  by (auto simp: number_toString_def)

lemma number_toString_0: "number_toString large 0 = ''0''"
  by (simp add: number_toString_def digits.simps)

lemma number_toString_5: "number_toString large 5 = ''5''"
  by (simp add: number_toString_def digits.simps)

lemma number_toString_10: "number_toString large 10 = ''10''"
  by (simp add: number_toString_def digits.simps)

text \<open>The text appended by lines 351-356.\<close>

lemma findAll_query_eq:
  assumes "reg_schema reg schema = Some obj"
    and "builder_where builder obj = Inr (wh, b)"
    and "order_sort order = Inr srt"
  shows "findAll_query large reg schema builder order take' skip' without =
    Inr (select_query (filter (\<lambda>c. c \<notin> set (case without of None \<Rightarrow> [] | Some w \<Rightarrow> w)) obj) schema wh srt @
         (let t = (case take' of None \<Rightarrow> 0 | Some n \<Rightarrow> n); s = (case skip' of None \<Rightarrow> 0 | Some n \<Rightarrow> n) in
          if t \<noteq> 0 \<and> s \<noteq> 0 then '' LIMIT '' @ number_toString large t @ '' OFFSET '' @ number_toString large s
          else if t \<noteq> 0 then '' LIMIT '' @ number_toString large t
          else if s \<noteq> 0 then '' OFFSET '' @ number_toString large t
          else []), b)"
  using assms by (simp add: findAll_query_def Let_def)

lemma findAll_sent:
  assumes "findAll_query large reg schema builder order take' skip' without = Inr (q, b)"
  shows "fst (findAll large reg schema builder order take' skip' without reply) = [DbAll (make (MakeString q)) (make b)]"
  using assms by (simp add: findAll_def reader_def split: prod.splits)

text \<open>
  Claim C1. On a registered schema, with accepted builder and order arguments, the
  statement of \<open>findAll\<close> is the select statement followed by: \<open>LIMIT take OFFSET skip\<close>
  when both are non-zero; \<open>LIMIT take\<close> when only \<open>take\<close> is; \<open>OFFSET take\<close>, the
  \<open>take\<close> variable (which is 0 there), when only \<open>skip\<close> is; and nothing when both are
  zero. That statement, placeholders normalized, is what the driver gets. A number of
  magnitude at most \<open>2^53\<close> stands in the clause as its decimal numeral, and then the
  text the driver gets ends in the same clause.
\<close>

theorem findAll_pagination:
  assumes "reg_schema reg schema = Some obj"
    and "builder_where builder obj = Inr (wh, b)"
    and "order_sort order = Inr srt"
    and "base = select_query (filter (\<lambda>c. c \<notin> set (case without of None \<Rightarrow> [] | Some w \<Rightarrow> w)) obj) schema wh srt"
    and "make (MakeString base) = Text sent"
    and "t = (case take' of None \<Rightarrow> 0 | Some n \<Rightarrow> n)"
    and "s = (case skip' of None \<Rightarrow> 0 | Some n \<Rightarrow> n)"
  shows "\<exists>pag. findAll_query large reg schema builder order take' skip' without = Inr (base @ pag, b)
           \<and> fst (findAll large reg schema builder order take' skip' without reply) =
               [DbAll (make (MakeString (base @ pag))) (make b)]
           \<and> (t \<noteq> 0 \<and> s \<noteq> 0 \<longrightarrow> pag = '' LIMIT '' @ number_toString large t @ '' OFFSET '' @ number_toString large s)
           \<and> (t \<noteq> 0 \<and> s = 0 \<longrightarrow> pag = '' LIMIT '' @ number_toString large t)
           \<and> (t = 0 \<and> s \<noteq> 0 \<longrightarrow> pag = '' OFFSET '' @ number_toString large t \<and> pag = '' OFFSET 0'')
           \<and> (t = 0 \<and> s = 0 \<longrightarrow> pag = [])
           \<and> (\<bar>t\<bar> \<le> 2 ^ 53 \<longrightarrow>
                 decimal_numeral (number_toString large t) \<and> read_number (number_toString large t) = t)
           \<and> (\<bar>s\<bar> \<le> 2 ^ 53 \<longrightarrow>
                 decimal_numeral (number_toString large s) \<and> read_number (number_toString large s) = s)
           \<and> (\<bar>t\<bar> \<le> 2 ^ 53 \<and> \<bar>s\<bar> \<le> 2 ^ 53 \<longrightarrow> make (MakeString (base @ pag)) = Text (sent @ pag))"
proof -
  define pag where "pag =
    (if t \<noteq> 0 \<and> s \<noteq> 0 then '' LIMIT '' @ number_toString large t @ '' OFFSET '' @ number_toString large s
     else if t \<noteq> 0 then '' LIMIT '' @ number_toString large t
     else if s \<noteq> 0 then '' OFFSET '' @ number_toString large t
     else [])"
  have q: "findAll_query large reg schema builder order take' skip' without = Inr (base @ pag, b)"
    using findAll_query_eq [OF assms(1-3), of large take' skip' without] assms(4,6,7)
    by (simp add: pag_def Let_def)
  have sent: "fst (findAll large reg schema builder order take' skip' without reply) =
      [DbAll (make (MakeString (base @ pag))) (make b)]"
    using q by (rule findAll_sent)
  have cases: "(t \<noteq> 0 \<and> s \<noteq> 0 \<longrightarrow> pag = '' LIMIT '' @ number_toString large t @ '' OFFSET '' @ number_toString large s)
           \<and> (t \<noteq> 0 \<and> s = 0 \<longrightarrow> pag = '' LIMIT '' @ number_toString large t)
           \<and> (t = 0 \<and> s \<noteq> 0 \<longrightarrow> pag = '' OFFSET '' @ number_toString large t \<and> pag = '' OFFSET 0'')
           \<and> (t = 0 \<and> s = 0 \<longrightarrow> pag = [])"
    by (simp add: pag_def number_toString_0)
  have numerals: "decimal_numeral (number_toString large n) \<and> read_number (number_toString large n) = n"
    if "\<bar>n\<bar> \<le> 2 ^ 53" for n
    using that by (simp add: number_toString_numeral number_toString_read)
  have driver_text: "make (MakeString (base @ pag)) = Text (sent @ pag)" if "\<bar>t\<bar> \<le> 2 ^ 53 \<and> \<bar>s\<bar> \<le> 2 ^ 53"
  proof -
    have "CHR ''{'' \<notin> set pag" "CHR ''}'' \<notin> set pag"
      using that number_toString_plain [of t large] number_toString_plain [of s large]
      by (auto simp: pag_def)
    with assms(5) show ?thesis by (rule make_string_append)
  qed
  from q sent cases numerals driver_text show ?thesis by blast
qed

theorem findAll_pagination_witness:
  "reg_schema example_registry ''users'' = Some [''id'', ''name'', ''age'']
   \<and> builder_where Null [''id'', ''name'', ''age''] = Inr ([], MakeNull)
   \<and> order_sort Null = Inr []
   \<and> make (MakeString ''SELECT id, name, age FROM users'') = Text ''SELECT id, name, age FROM users''
   \<and> findAll_query example_large example_registry ''users'' Null Null (Some 10) (Some 5) None =
       Inr (''SELECT id, name, age FROM users LIMIT 10 OFFSET 5'', MakeNull)
   \<and> fst (findAll example_large example_registry ''users'' Null Null (Some 10) (Some 5) None (None, Some [])) =
       [DbAll (Text ''SELECT id, name, age FROM users LIMIT 10 OFFSET 5'') (Parameters [])]
   \<and> findAll_query example_large example_registry ''users'' Null Null (Some 10) None None =
       Inr (''SELECT id, name, age FROM users LIMIT 10'', MakeNull)
   \<and> findAll_query example_large example_registry ''users'' Null Null None (Some 5) None =
       Inr (''SELECT id, name, age FROM users OFFSET 0'', MakeNull)
   \<and> findAll_query example_large example_registry ''users'' Null Null None None None =
       Inr (''SELECT id, name, age FROM users'', MakeNull)
   \<and> read_number ''10'' = 10 \<and> read_number ''5'' = 5 \<and> decimal_numeral ''10''"
proof -
  have h1: "reg_schema example_registry ''users'' = Some [''id'', ''name'', ''age'']"
    by (simp add: example_registry_def)
  have h2: "builder_where Null [''id'', ''name'', ''age''] = Inr ([], MakeNull)"
    by (simp add: builder_where_def)
  have h3: "order_sort Null = Inr []"
    by (simp add: order_sort_def)
  have h4: "''SELECT id, name, age FROM users'' =
      select_query (filter (\<lambda>c. c \<notin> set (case None of None \<Rightarrow> [] | Some w \<Rightarrow> w)) [''id'', ''name'', ''age''])
        ''users'' [] []"
    by (simp add: select_query_def prepareSchema_def substring_def)
  have h5: "make (MakeString ''SELECT id, name, age FROM users'') = Text ''SELECT id, name, age FROM users''"
    by simp
  have n0: "(0::int) = (case None of None \<Rightarrow> 0 | Some n \<Rightarrow> n)" by simp
  have n5: "(5::int) = (case Some 5 of None \<Rightarrow> 0 | Some n \<Rightarrow> n)" by simp
  have n10: "(10::int) = (case Some 10 of None \<Rightarrow> 0 | Some n \<Rightarrow> n)" by simp
  note both = findAll_pagination [OF h1 h2 h3 h4 h5 n10 n5, of example_large "(None, Some [])"]
  note limit = findAll_pagination [OF h1 h2 h3 h4 h5 n10 n0, of example_large "(None, Some [])"]
  note offset = findAll_pagination [OF h1 h2 h3 h4 h5 n0 n5, of example_large "(None, Some [])"]
  note neither = findAll_pagination [OF h1 h2 h3 h4 h5 n0 n0, of example_large "(None, Some [])"]
  have a: "findAll_query example_large example_registry ''users'' Null Null (Some 10) (Some 5) None =
       Inr (''SELECT id, name, age FROM users LIMIT 10 OFFSET 5'', MakeNull)
     \<and> fst (findAll example_large example_registry ''users'' Null Null (Some 10) (Some 5) None (None, Some [])) =
       [DbAll (Text ''SELECT id, name, age FROM users LIMIT 10 OFFSET 5'') (Parameters [])]
     \<and> read_number ''10'' = 10 \<and> read_number ''5'' = 5 \<and> decimal_numeral ''10''"
    using both by (auto simp: number_toString_10 number_toString_5)
  have b: "findAll_query example_large example_registry ''users'' Null Null (Some 10) None None =
       Inr (''SELECT id, name, age FROM users LIMIT 10'', MakeNull)"
    using limit by (auto simp: number_toString_10)
  have c: "findAll_query example_large example_registry ''users'' Null Null None (Some 5) None =
       Inr (''SELECT id, name, age FROM users OFFSET 0'', MakeNull)"
    using offset by auto
  have d: "findAll_query example_large example_registry ''users'' Null Null None None None =
       Inr (''SELECT id, name, age FROM users'', MakeNull)"
    using neither by auto
  from h1 h2 h3 h5 a b c d show ?thesis by (intro conjI) (elim conjE, assumption)+
qed

lemma not_suffix_same_length:
  "length xs = length zs \<Longrightarrow> xs \<noteq> zs \<Longrightarrow> \<not> suffix xs (ys @ zs)"
  by (auto simp: suffix_append suffix_def)

text \<open>
  Claim C8, as amended. With \<open>take = 10\<close> and \<open>skip = 5\<close> the statement ends in
  \<open>LIMIT 10 OFFSET 5\<close>; with \<open>take = 10\<close> and \<open>skip = 0\<close> in \<open>LIMIT 10\<close>; with
  \<open>take = 0\<close> and \<open>skip = 5\<close> it gets an \<open>OFFSET\<close> clause and no \<open>LIMIT\<close>, and
  does not end in \<open>OFFSET 10\<close>.
\<close>

theorem findAll_pagination_examples:
  assumes "reg_schema reg schema = Some obj"
    and "builder_where builder obj = Inr (wh, b)"
    and "order_sort order = Inr srt"
    and "base = select_query (filter (\<lambda>c. c \<notin> set (case without of None \<Rightarrow> [] | Some w \<Rightarrow> w)) obj) schema wh srt"
  shows "findAll_query large reg schema builder order (Some 10) (Some 5) without = Inr (base @ '' LIMIT 10 OFFSET 5'', b)
       \<and> findAll_query large reg schema builder order (Some 10) (Some 0) without = Inr (base @ '' LIMIT 10'', b)
       \<and> findAll_query large reg schema builder order (Some 0) (Some 5) without = Inr (base @ '' OFFSET 0'', b)
       \<and> \<not> suffix ''OFFSET 10'' (base @ '' OFFSET 0'')"
proof -
  have "\<not> suffix ''OFFSET 10'' (base @ '' OFFSET 0'')"
    by (rule not_suffix_same_length) simp_all
  then show ?thesis
    using findAll_query_eq [OF assms(1-3)] assms(4)
    by (simp add: number_toString_0 number_toString_5 number_toString_10)
qed

theorem findAll_pagination_examples_witness:
  "reg_schema example_registry ''users'' = Some [''id'', ''name'', ''age'']
   \<and> builder_where Null [''id'', ''name'', ''age''] = Inr ([], MakeNull)
   \<and> order_sort Null = Inr []
   \<and> findAll_query example_large example_registry ''users'' Null Null (Some 10) (Some 5) None =
       Inr (''SELECT id, name, age FROM users LIMIT 10 OFFSET 5'', MakeNull)
   \<and> findAll_query example_large example_registry ''users'' Null Null (Some 10) (Some 0) None =
       Inr (''SELECT id, name, age FROM users LIMIT 10'', MakeNull)
   \<and> findAll_query example_large example_registry ''users'' Null Null (Some 0) (Some 5) None =
       Inr (''SELECT id, name, age FROM users OFFSET 0'', MakeNull)"
proof -
  have h1: "reg_schema example_registry ''users'' = Some [''id'', ''name'', ''age'']"
    by (simp add: example_registry_def)
  have h2: "builder_where Null [''id'', ''name'', ''age''] = Inr ([], MakeNull)"
    by (simp add: builder_where_def)
  have h3: "order_sort Null = Inr []"
    by (simp add: order_sort_def)
  have h4: "''SELECT id, name, age FROM users'' =
      select_query (filter (\<lambda>c. c \<notin> set (case None of None \<Rightarrow> [] | Some w \<Rightarrow> w)) [''id'', ''name'', ''age''])
        ''users'' [] []"
    by (simp add: select_query_def prepareSchema_def substring_def)
  show ?thesis
    using h1 h2 h3 findAll_pagination_examples [OF h1 h2 h3 h4, of example_large]
    by simp
qed

text \<open>
  Claim C8 as stated fails in its third case: with \<open>take = 0\<close> and \<open>skip = 5\<close> the
  statement does not end in \<open>OFFSET 10\<close>.
\<close>

theorem findAll_offset_only_counterexample:
  "findAll_query example_large example_registry ''users'' Null Null (Some 0) (Some 5) None =
     Inr (''SELECT id, name, age FROM users OFFSET 0'', MakeNull)
   \<and> \<not> suffix ''OFFSET 10'' ''SELECT id, name, age FROM users OFFSET 0''"
proof -
  have "\<not> suffix ''OFFSET 10'' (''SELECT id, name, age FROM users'' @ '' OFFSET 0'')"
    by (rule not_suffix_same_length) simp_all
  then show ?thesis
    by (simp add: findAll_query_def example_registry_def builder_where_def order_sort_def
        select_query_def prepareSchema_def substring_def number_toString_0 Let_def)
qed

section \<open>Insert\<close>

lemma add_each_params:
  "distinct cs \<Longrightarrow> set cs \<inter> fst ` set (pb_params pb) = {} \<Longrightarrow>
   pb_params (foldl (\<lambda>pb c. add pb c (f c)) pb cs) = pb_params pb @ map (\<lambda>c. (c, f c)) cs"
proof (induction cs arbitrary: pb)
  case Nil
  then show ?case by simp
next
  case (Cons c cs)
  have fresh: "c \<notin> fst ` set (pb_params pb)" using Cons.prems by auto
  have step: "pb_params (add pb c (f c)) = pb_params pb @ [(c, f c)]"
    by (simp add: add_def js_set_fresh [OF fresh])
  have "set cs \<inter> fst ` set (pb_params (add pb c (f c))) = {}"
    using Cons.prems by (auto simp: step)
  with Cons show ?case by (simp add: step)
qed

lemma insert_each_eq:
  "insert_each cs w v (column, values, pb) =
     (column @ filter (\<lambda>c. c \<notin> set w) cs,
      values @ map (\<lambda>c. ''{'' @ c @ ''}'') (filter (\<lambda>c. c \<notin> set w) cs),
      foldl (\<lambda>pb c. add pb c (js_get v c)) pb (filter (\<lambda>c. c \<notin> set w) cs))"
  by (induction cs arbitrary: column "values" pb) auto

text \<open>The statements \<open>insert\<close> hands to the driver, and what its completion does on success.\<close>

lemma insert_record_eq:
  assumes "reg_schema reg schema = Some obj" and "distinct obj"
    and "w = (case without of None \<Rightarrow> [] | Some w \<Rightarrow> w) @
           (case reg_primaryKey reg schema of None \<Rightarrow> [] | Some p \<Rightarrow> if \<not> pk_insert p then [pk_name p] else [])"
    and "cols = filter (\<lambda>c. c \<notin> set w) obj"
    and "query = ''INSERT INTO '' @ prepareSchema schema @ ''('' @ join cols '','' @ '') VALUES('' @
           join (map (\<lambda>c. ''{'' @ c @ ''}'') cols) '','' @ '')''"
    and "ps = make (MakeObject (map (\<lambda>c. (c, js_get value c)) cols))"
  shows "insert_record reg schema value without (RunDone lastID changes) =
           ([DbPrepare (make (MakeString query)) ps, DbRun (make (MakeString query)) ps],
            case reg_primaryKey reg schema of
              None \<Rightarrow> ThrownInCompletion (TypeError ''name'')
            | Some p \<Rightarrow> CallbackInvoked (None, js_set value (pk_name p) (JNum lastID), changes))"
    and "fst (insert_record reg schema value without (RunFailed e)) =
           [DbPrepare (make (MakeString query)) ps, DbRun (make (MakeString query)) ps]"
    and "fst (insert_record reg schema value without (PrepareFailed e)) =
           [DbPrepare (make (MakeString query)) ps]"
proof -
  define w0 where "w0 = (case without of None \<Rightarrow> [] | Some w \<Rightarrow> w)"
  have w: "(case reg_primaryKey reg schema of None \<Rightarrow> w0
            | Some p \<Rightarrow> if \<not> pk_insert p then w0 @ [pk_name p] else w0) = w"
    using assms(3) by (simp add: w0_def split: option.splits)
  have d: "distinct cols" using assms(2,4) by simp
  have params: "pb_params (foldl (\<lambda>pb c. add pb c (js_get value c))
                  (new_ParameterBuilder\<lparr>pb_schema := Some obj\<rparr>) cols) = map (\<lambda>c. (c, js_get value c)) cols"
    using add_each_params [OF d, of "new_ParameterBuilder\<lparr>pb_schema := Some obj\<rparr>" "js_get value"]
    by (simp add: new_ParameterBuilder_def)
  have each: "insert_each obj w value ([], [], new_ParameterBuilder\<lparr>pb_schema := Some obj\<rparr>) =
      (cols, map (\<lambda>c. ''{'' @ c @ ''}'') cols,
       foldl (\<lambda>pb c. add pb c (js_get value c)) (new_ParameterBuilder\<lparr>pb_schema := Some obj\<rparr>) cols)"
    by (simp add: insert_each_eq assms(4))
  have ps: "make (MakeParameter (foldl (\<lambda>pb c. add pb c (js_get value c))
                  (new_ParameterBuilder\<lparr>pb_schema := Some obj\<rparr>) cols)) = ps"
    by (simp add: params assms(6))
  show "insert_record reg schema value without (RunDone lastID changes) =
           ([DbPrepare (make (MakeString query)) ps, DbRun (make (MakeString query)) ps],
            case reg_primaryKey reg schema of
              None \<Rightarrow> ThrownInCompletion (TypeError ''name'')
            | Some p \<Rightarrow> CallbackInvoked (None, js_set value (pk_name p) (JNum lastID), changes))"
    unfolding insert_record_def Let_def w0_def [symmetric]
    by (simp only: assms(1) option.case w each prod.case execute_def Let_def ps assms(5) [symmetric]
        exec_reply.case) (simp split: option.splits)
  show "fst (insert_record reg schema value without (RunFailed e)) =
           [DbPrepare (make (MakeString query)) ps, DbRun (make (MakeString query)) ps]"
    unfolding insert_record_def Let_def w0_def [symmetric]
    by (simp only: assms(1) option.case w each prod.case execute_def Let_def ps assms(5) [symmetric]
        exec_reply.case fst_conv)
  show "fst (insert_record reg schema value without (PrepareFailed e)) =
           [DbPrepare (make (MakeString query)) ps]"
    unfolding insert_record_def Let_def w0_def [symmetric]
    by (simp only: assms(1) option.case w each prod.case execute_def Let_def ps assms(5) [symmetric]
        exec_reply.case fst_conv)
qed

text \<open>
  Claim C10. \<open>insert\<close> makes no primary-key check. On a registered schema with no
  primary key it throws nothing at the call site, whatever the driver replies; it hands
  the driver the \<open>INSERT\<close> over all columns that are not excluded; and on success its
  completion reads \<open>primary.name\<close> of the \<open>null\<close> descriptor, a \<open>TypeError\<close>, instead
  of invoking the callback.
\<close>

theorem insert_without_primary_key:
  assumes "reg_schema reg schema = Some obj" and "distinct obj"
    and "reg_primaryKey reg schema = None"
    and "cols = filter (\<lambda>c. c \<notin> set (case without of None \<Rightarrow> [] | Some w \<Rightarrow> w)) obj"
    and "query = ''INSERT INTO '' @ prepareSchema schema @ ''('' @ join cols '','' @ '') VALUES('' @
           join (map (\<lambda>c. ''{'' @ c @ ''}'') cols) '','' @ '')''"
    and "ps = make (MakeObject (map (\<lambda>c. (c, js_get value c)) cols))"
  shows "(\<forall>reply e. snd (insert_record reg schema value without reply) \<noteq> ThrownAtCallSite e)
       \<and> (\<forall>reply. \<exists>rest. fst (insert_record reg schema value without reply) =
             DbPrepare (make (MakeString query)) ps # rest)
       \<and> insert_record reg schema value without (RunDone lastID changes) =
           ([DbPrepare (make (MakeString query)) ps, DbRun (make (MakeString query)) ps],
            ThrownInCompletion (TypeError ''name''))"
proof -
  have w: "(case without of None \<Rightarrow> [] | Some w \<Rightarrow> w) =
      (case without of None \<Rightarrow> [] | Some w \<Rightarrow> w) @
      (case reg_primaryKey reg schema of None \<Rightarrow> [] | Some p \<Rightarrow> if \<not> pk_insert p then [pk_name p] else [])"
    by (simp add: assms(3))
  note eq = insert_record_eq [OF assms(1,2) w assms(4,5,6)]
  have ok: "insert_record reg schema value without (RunDone i c) =
           ([DbPrepare (make (MakeString query)) ps, DbRun (make (MakeString query)) ps],
            ThrownInCompletion (TypeError ''name''))" for i c
    using eq(1) [of i c] by (simp add: assms(3))
  have no_throw: "snd (insert_record reg schema value without reply) \<noteq> ThrownAtCallSite e" for reply e
  proof (cases reply)
    case (PrepareFailed x)
    then show ?thesis using insert_driver_error [OF assms(1), of reply x "value" without] by simp
  next
    case (RunFailed x)
    then show ?thesis using insert_driver_error [OF assms(1), of reply x "value" without] by simp
  next
    case (RunDone i c)
    then show ?thesis using ok [of i c] by simp
  qed
  have first: "\<exists>rest. fst (insert_record reg schema value without reply) =
      DbPrepare (make (MakeString query)) ps # rest" for reply
  proof (cases reply)
    case (PrepareFailed x)
    then show ?thesis using eq(3) [of x] by simp
  next
    case (RunFailed x)
    then show ?thesis using eq(2) [of x] by simp
  next
    case (RunDone i c)
    then show ?thesis using ok [of i c] by simp
  qed
  from no_throw first ok show ?thesis by blast
qed

theorem insert_without_primary_key_witness:
  "reg_schema example_registry ''logs'' = Some [''msg'', ''at'']
   \<and> distinct [''msg'', ''at'']
   \<and> reg_primaryKey example_registry ''logs'' = None
   \<and> insert_record example_registry ''logs'' [(''msg'', JStr ''started'')] None (RunDone 7 1) =
       ([DbPrepare (Text ''INSERT INTO logs(msg,at) VALUES($msg,$at)'')
           (Parameters [(''$msg'', JStr ''started''), (''$at'', JUndefined)]),
         DbRun (Text ''INSERT INTO logs(msg,at) VALUES($msg,$at)'')
           (Parameters [(''$msg'', JStr ''started''), (''$at'', JUndefined)])],
        ThrownInCompletion (TypeError ''name''))"
proof -
  have h1: "reg_schema example_registry ''logs'' = Some [''msg'', ''at'']"
    by (simp add: example_registry_def)
  have h2: "distinct [''msg'', ''at'']" by simp
  have h3: "reg_primaryKey example_registry ''logs'' = None"
    by (simp add: example_registry_def)
  have h4: "[''msg'', ''at''] = filter (\<lambda>c. c \<notin> set (case None of None \<Rightarrow> [] | Some w \<Rightarrow> w)) [''msg'', ''at'']"
    by simp
  have h5: "''INSERT INTO logs(msg,at) VALUES({msg},{at})'' =
      ''INSERT INTO '' @ prepareSchema ''logs'' @ ''('' @ join [''msg'', ''at''] '','' @ '') VALUES('' @
        join (map (\<lambda>c. ''{'' @ c @ ''}'') [''msg'', ''at'']) '','' @ '')''"
    by (simp add: prepareSchema_def substring_def)
  have h6: "Parameters [(''$msg'', JStr ''started''), (''$at'', JUndefined)] =
      make (MakeObject (map (\<lambda>c. (c, js_get [(''msg'', JStr ''started'')] c)) [''msg'', ''at'']))"
    by (simp add: js_get_def)
  have t: "make (MakeString ''INSERT INTO logs(msg,at) VALUES({msg},{at})'') =
      Text ''INSERT INTO logs(msg,at) VALUES($msg,$at)''"
    by simp
  show ?thesis
    using h1 h2 h3 insert_without_primary_key [OF h1 h2 h3 h4 h5 h6, of 7 1]
    by (simp add: t)
qed

text \<open>
  Claim C4. When the primary-key descriptor says the key is not supplied on insert, the
  key column is in neither the column list nor the placeholders nor the parameters of the
  \<open>INSERT\<close>; on success the callback gets a null error, the caller's record with the key
  field set to the driver's \<open>lastID\<close> (every other field as it was), and the driver's
  \<open>changes\<close>.
\<close>

theorem insert_generated_key:
  assumes "reg_schema reg schema = Some obj" and "distinct obj"
    and "reg_primaryKey reg schema = Some p" and "\<not> pk_insert p"
    and "cols = filter (\<lambda>c. c \<notin> set (case without of None \<Rightarrow> [] | Some w \<Rightarrow> w) \<and> c \<noteq> pk_name p) obj"
    and "query = ''INSERT INTO '' @ prepareSchema schema @ ''('' @ join cols '','' @ '') VALUES('' @
           join (map (\<lambda>c. ''{'' @ c @ ''}'') cols) '','' @ '')''"
    and "ps = make (MakeObject (map (\<lambda>c. (c, js_get value c)) cols))"
  shows "pk_name p \<notin> set cols
       \<and> insert_record reg schema value without (RunDone lastID changes) =
           ([DbPrepare (make (MakeString query)) ps, DbRun (make (MakeString query)) ps],
            CallbackInvoked (None, js_set value (pk_name p) (JNum lastID), changes))
       \<and> js_get (js_set value (pk_name p) (JNum lastID)) (pk_name p) = JNum lastID
       \<and> (\<forall>c. c \<noteq> pk_name p \<longrightarrow> js_get (js_set value (pk_name p) (JNum lastID)) c = js_get value c)"
proof -
  define w where "w = (case without of None \<Rightarrow> [] | Some w \<Rightarrow> w) @
      (case reg_primaryKey reg schema of None \<Rightarrow> [] | Some p \<Rightarrow> if \<not> pk_insert p then [pk_name p] else [])"
  have cols: "cols = filter (\<lambda>c. c \<notin> set w) obj"
    unfolding w_def assms(5) by (rule filter_cong) (auto simp: assms(3,4))
  have "insert_record reg schema value without (RunDone lastID changes) =
           ([DbPrepare (make (MakeString query)) ps, DbRun (make (MakeString query)) ps],
            CallbackInvoked (None, js_set value (pk_name p) (JNum lastID), changes))"
    using insert_record_eq(1) [OF assms(1,2) w_def cols assms(6,7), of lastID changes]
    by (simp add: assms(3))
  moreover have "pk_name p \<notin> set cols" by (simp add: assms(5))
  ultimately show ?thesis
    by (simp add: js_get_js_set js_get_js_set_other)
qed

theorem insert_generated_key_witness:
  "reg_schema example_registry ''users'' = Some [''id'', ''name'', ''age'']
   \<and> distinct [''id'', ''name'', ''age'']
   \<and> reg_primaryKey example_registry ''users'' = Some \<lparr>pk_name = ''id'', pk_insert = False\<rparr>
   \<and> ''id'' \<notin> set [''name'', ''age'']
   \<and> insert_record example_registry ''users'' [(''name'', JStr ''Peter''), (''age'', JNum 28)] None (RunDone 7 1) =
       ([DbPrepare (Text ''INSERT INTO users(name,age) VALUES($name,$age)'')
           (Parameters [(''$name'', JStr ''Peter''), (''$age'', JNum 28)]),
         DbRun (Text ''INSERT INTO users(name,age) VALUES($name,$age)'')
           (Parameters [(''$name'', JStr ''Peter''), (''$age'', JNum 28)])],
        CallbackInvoked (None, [(''name'', JStr ''Peter''), (''age'', JNum 28), (''id'', JNum 7)], 1))"
proof -
  have h1: "reg_schema example_registry ''users'' = Some [''id'', ''name'', ''age'']"
    by (simp add: example_registry_def)
  have h2: "distinct [''id'', ''name'', ''age'']" by simp
  have h3: "reg_primaryKey example_registry ''users'' = Some \<lparr>pk_name = ''id'', pk_insert = False\<rparr>"
    by (simp add: example_registry_def)
  have h4: "\<not> pk_insert \<lparr>pk_name = ''id'', pk_insert = False\<rparr>" by simp
  have h5: "[''name'', ''age''] =
      filter (\<lambda>c. c \<notin> set (case None of None \<Rightarrow> [] | Some w \<Rightarrow> w) \<and> c \<noteq> pk_name \<lparr>pk_name = ''id'', pk_insert = False\<rparr>)
        [''id'', ''name'', ''age'']"
    by simp
  have h6: "''INSERT INTO users(name,age) VALUES({name},{age})'' =
      ''INSERT INTO '' @ prepareSchema ''users'' @ ''('' @ join [''name'', ''age''] '','' @ '') VALUES('' @
        join (map (\<lambda>c. ''{'' @ c @ ''}'') [''name'', ''age'']) '','' @ '')''"
    by (simp add: prepareSchema_def substring_def)
  have h7: "Parameters [(''$name'', JStr ''Peter''), (''$age'', JNum 28)] =
      make (MakeObject (map (\<lambda>c. (c, js_get [(''name'', JStr ''Peter''), (''age'', JNum 28)] c)) [''name'', ''age'']))"
    by (simp add: js_get_def)
  have t: "make (MakeString ''INSERT INTO users(name,age) VALUES({name},{age})'') =
      Text ''INSERT INTO users(name,age) VALUES($name,$age)''"
    by simp
  show ?thesis
    using h1 h2 h3 insert_generated_key [OF h1 h2 h3 h4 h5 h6 h7, of 7 1]
    by (simp add: t)
qed

section \<open>Parameter sets\<close>

lemma digits_length: "0 < k \<Longrightarrow> n < 10 ^ k \<Longrightarrow> length (digits n) \<le> k"
proof (induction k arbitrary: n)
  case 0
  then show ?case by simp
next
  case (Suc k)
  show ?case
  proof (cases "n < 10")
    case True
    then show ?thesis by (subst digits.simps) simp
  next
    case False
    with Suc.prems have k: "0 < k" by (cases k) auto
    from Suc.prems have "n div 10 < 10 ^ k" by (simp add: less_mult_imp_div_less mult.commute)
    with k have "length (digits (n div 10)) \<le> k" by (rule Suc.IH)
    with False show ?thesis by (subst digits.simps) simp
  qed
qed

lemma padLeft_digits:
  assumes "0 < w" and "n < 10 ^ w"
  shows "length (padLeft (digits n) w) = w"
    and "set (padLeft (digits n) w) \<subseteq> set ''0123456789''"
proof -
  have "length (digits n) \<le> w" using assms by (rule digits_length)
  then show "length (padLeft (digits n) w) = w" by (simp add: padLeft_def)
  show "set (padLeft (digits n) w) \<subseteq> set ''0123456789''"
    using digits_chars [of n] by (auto simp: padLeft_def)
qed

lemma field_shape:
  assumes "0 < w" and "n < 10 ^ w"
  shows "list_all2 (\<lambda>c p. if p = CHR ''9'' then c \<in> set ''0123456789'' else c = p)
           (padLeft (digits n) w) (replicate w CHR ''9'')"
proof -
  let ?f = "padLeft (digits n) w"
  have len: "length ?f = w" and sub: "set ?f \<subseteq> set ''0123456789''"
    using padLeft_digits [OF assms] by blast+
  have "?f ! i \<in> set ''0123456789''" if "i < w" for i
  proof -
    from that len have "?f ! i \<in> set ?f" by simp
    with sub show ?thesis by blast
  qed
  with len show ?thesis
    by (simp add: list_all2_conv_all_nth del: set_simps)
qed

lemma format_date_shape:
  assumes "calendar_date d"
  shows "timestamp_shape (format_date d)" and "length (format_date d) = 19"
proof -
  let ?P = "\<lambda>c p. if p = CHR ''9'' then c \<in> set ''0123456789'' else c = p"
  have y: "fullYear d < 10 ^ 4" and m: "monthNumber d < 10 ^ 2" and dd: "dayOfMonth d < 10 ^ 2"
    and h: "hours d < 10 ^ 2" and mi: "minutes d < 10 ^ 2" and s: "seconds d < 10 ^ 2"
    using assms by (simp_all add: calendar_date_def)
  have sep: "list_all2 ?P ''-'' ''-''" "list_all2 ?P '' '' '' ''" "list_all2 ?P '':'' '':''"
    by simp_all
  have tmpl: "''9999-99-99 99:99:99'' =
      replicate 4 CHR ''9'' @ ''-'' @ replicate 2 CHR ''9'' @ ''-'' @ replicate 2 CHR ''9'' @ '' '' @
      replicate 2 CHR ''9'' @ '':'' @ replicate 2 CHR ''9'' @ '':'' @ replicate 2 CHR ''9''"
    by (simp add: numeral_eq_Suc)
  have "list_all2 ?P (format_date d) ''9999-99-99 99:99:99''"
    unfolding format_date_def tmpl
    by (intro list_all2_appendI field_shape sep y m dd h mi s) simp_all
  then show "timestamp_shape (format_date d)" by (simp add: timestamp_shape_def)
  then show "length (format_date d) = 19"
    by (auto simp: timestamp_shape_def dest: list_all2_lengthD)
qed

lemma make_each_eq:
  assumes "distinct (map fst m)"
    and "\<forall>k \<in> fst ` set m. (CHR ''$'' # k) \<notin> fst ` set arg"
  shows "make_each m arg =
     arg @ map (\<lambda>(k, v). (CHR ''$'' # k, case v of JDate d \<Rightarrow> JStr (format_date d) | _ \<Rightarrow> v)) m"
  using assms
proof (induction m arbitrary: arg)
  case Nil
  then show ?case by simp
next
  case (Cons kv m)
  obtain k v where kv: "kv = (k, v)" by (cases kv)
  let ?v = "case v of JDate d \<Rightarrow> JStr (format_date d) | _ \<Rightarrow> v"
  have fresh: "(CHR ''$'' # k) \<notin> fst ` set arg" using Cons.prems(2) kv by simp
  have set_eq: "js_set arg (CHR ''$'' # k) ?v = arg @ [(CHR ''$'' # k, ?v)]"
    using fresh by (rule js_set_fresh)
  have "\<forall>k' \<in> fst ` set m. (CHR ''$'' # k') \<notin> fst ` set (arg @ [(CHR ''$'' # k, ?v)])"
    using Cons.prems kv by (auto simp: image_iff)
  with Cons.IH [of "arg @ [(CHR ''$'' # k, ?v)]"] Cons.prems(1)
  show ?case by (simp add: kv set_eq)
qed

lemma add_pairs_params:
  "distinct (map fst m) \<Longrightarrow> fst ` set m \<inter> fst ` set (pb_params pb) = {} \<Longrightarrow>
   pb_params (foldl (\<lambda>pb (k, v). add pb k v) pb m) = pb_params pb @ m"
proof (induction m arbitrary: pb)
  case Nil
  then show ?case by simp
next
  case (Cons kv m)
  obtain k v where kv: "kv = (k, v)" by (cases kv)
  have fresh: "k \<notin> fst ` set (pb_params pb)" using Cons.prems kv by auto
  have step: "pb_params (add pb k v) = pb_params pb @ [(k, v)]"
    by (simp add: add_def js_set_fresh [OF fresh])
  have "fst ` set m \<inter> fst ` set (pb_params (add pb k v)) = {}"
    using Cons.prems kv by (auto simp: step image_iff)
  with Cons.IH [of "add pb k v"] Cons.prems(1) show ?case by (simp add: kv step)
qed

text \<open>
  Claim C6, as amended. For a value mapping \<open>m\<close> (an object, so with distinct keys) \<open>make\<close>
  returns the parameter set with, in the same order, the key \<open>$\<close> plus the original key
  for every entry; a date value rendered by \<open>format\<close>, which for a calendar date with a
  year of at most four digits is 19 characters of the shape \<open>yyyy-MM-dd HH:mm:ss\<close>;
  every other value as it is. A
  \<open>ParameterBuilder\<close> filled by \<open>add\<close> with the entries of \<open>m\<close>, and any
  \<open>ParameterBuilder\<close> or \<open>QueryBuilder\<close> whose \<open>params\<close> are \<open>m\<close>, give the same
  parameter set as \<open>m\<close> itself.
\<close>

theorem make_value_mapping:
  assumes "distinct (map fst m)" and "make (MakeObject m) = Parameters ps"
  shows "ps = map (\<lambda>(k, v). (CHR ''$'' # k, case v of JDate d \<Rightarrow> JStr (format_date d) | _ \<Rightarrow> v)) m
       \<and> map fst ps = map (\<lambda>k. CHR ''$'' # k) (map fst m)
       \<and> (\<forall>k d. (k, JDate d) \<in> set m \<and> calendar_date d \<longrightarrow>
             js_get ps (CHR ''$'' # k) = JStr (format_date d) \<and> length (format_date d) = 19 \<and>
             timestamp_shape (format_date d))
       \<and> (\<forall>k v. (k, v) \<in> set m \<and> (\<forall>d. v \<noteq> JDate d) \<longrightarrow> js_get ps (CHR ''$'' # k) = v)
       \<and> make (MakeParameter (foldl (\<lambda>pb (k, v). add pb k v) new_ParameterBuilder m)) = Parameters ps
       \<and> (\<forall>pb. pb_params pb = m \<longrightarrow> make (MakeParameter pb) = Parameters ps)
       \<and> (\<forall>qb. qb_params qb = m \<longrightarrow> make (MakeQuery qb) = Parameters ps)"
proof -
  let ?r = "\<lambda>v. case v of JDate d \<Rightarrow> JStr (format_date d) | _ \<Rightarrow> v"
  have each: "make_each m [] = map (\<lambda>(k, v). (CHR ''$'' # k, ?r v)) m"
    using make_each_eq [OF assms(1), of "[]"] by simp
  with assms(2) have ps: "ps = map (\<lambda>(k, v). (CHR ''$'' # k, ?r v)) m" by simp
  have keys: "map fst ps = map (\<lambda>k. CHR ''$'' # k) (map fst m)"
    by (simp add: ps case_prod_unfold comp_def)
  have dist: "distinct (map fst ps)"
    unfolding keys using assms(1) by (simp add: distinct_map inj_on_def)
  have look: "js_get ps (CHR ''$'' # k) = ?r v" if "(k, v) \<in> set m" for k v
  proof -
    from that have "(CHR ''$'' # k, ?r v) \<in> set ps" by (force simp: ps)
    with dist have "map_of ps (CHR ''$'' # k) = Some (?r v)" by simp
    then show ?thesis by (simp add: js_get_def)
  qed
  have dates: "js_get ps (CHR ''$'' # k) = JStr (format_date d) \<and> length (format_date d) = 19 \<and>
      timestamp_shape (format_date d)" if "(k, JDate d) \<in> set m" "calendar_date d" for k d
    using look [OF that(1)] format_date_shape [OF that(2)] by simp
  have others: "js_get ps (CHR ''$'' # k) = v" if "(k, v) \<in> set m" "\<forall>d. v \<noteq> JDate d" for k v
    using look [OF that(1)] that(2) by (cases v) simp_all
  have "pb_params (foldl (\<lambda>pb (k, v). add pb k v) new_ParameterBuilder m) = m"
    using add_pairs_params [OF assms(1), of new_ParameterBuilder] by (simp add: new_ParameterBuilder_def)
  then have built: "make (MakeParameter (foldl (\<lambda>pb (k, v). add pb k v) new_ParameterBuilder m)) = Parameters ps"
    using assms(2) by simp
  have pb: "make (MakeParameter pb) = Parameters ps" if "pb_params pb = m" for pb
    using that assms(2) by simp
  have qb: "make (MakeQuery qb) = Parameters ps" if "qb_params qb = m" for qb
    using that assms(2) by simp
  show ?thesis
  proof (intro conjI allI impI)
    show "ps = map (\<lambda>(k, v). (CHR ''$'' # k, ?r v)) m" by (rule ps)
    show "map fst ps = map (\<lambda>k. CHR ''$'' # k) (map fst m)" by (rule keys)
    show "js_get ps (CHR ''$'' # k) = JStr (format_date d)"
      if "(k, JDate d) \<in> set m \<and> calendar_date d" for k d
      using that dates by blast
    show "length (format_date d) = 19" if "(k, JDate d) \<in> set m \<and> calendar_date d" for k d
      using that dates by blast
    show "timestamp_shape (format_date d)" if "(k, JDate d) \<in> set m \<and> calendar_date d" for k d
      using that dates by blast
    show "js_get ps (CHR ''$'' # k) = v" if "(k, v) \<in> set m \<and> (\<forall>d. v \<noteq> JDate d)" for k v
      using that others by blast
    show "make (MakeParameter (foldl (\<lambda>pb (k, v). add pb k v) new_ParameterBuilder m)) = Parameters ps"
      by (rule built)
    show "make (MakeParameter pb) = Parameters ps" if "pb_params pb = m" for pb
      using that by (rule pb)
    show "make (MakeQuery qb) = Parameters ps" if "qb_params qb = m" for qb
      using that by (rule qb)
  qed
qed

theorem make_value_mapping_witness:
  "distinct (map fst [(''name'', JStr ''Peter''),
      (''created'', JDate \<lparr>fullYear = 2013, monthNumber = 2, dayOfMonth = 7, hours = 9, minutes = 5, seconds = 0\<rparr>)])
   \<and> calendar_date \<lparr>fullYear = 2013, monthNumber = 2, dayOfMonth = 7, hours = 9, minutes = 5, seconds = 0\<rparr>
   \<and> make (MakeObject [(''name'', JStr ''Peter''),
      (''created'', JDate \<lparr>fullYear = 2013, monthNumber = 2, dayOfMonth = 7, hours = 9, minutes = 5, seconds = 0\<rparr>)]) =
       Parameters [(''$name'', JStr ''Peter''), (''$created'', JStr ''2013-02-07 09:05:00'')]
   \<and> make (MakeParameter (add (add new_ParameterBuilder ''name'' (JStr ''Peter'')) ''created''
       (JDate \<lparr>fullYear = 2013, monthNumber = 2, dayOfMonth = 7, hours = 9, minutes = 5, seconds = 0\<rparr>))) =
       Parameters [(''$name'', JStr ''Peter''), (''$created'', JStr ''2013-02-07 09:05:00'')]
   \<and> length ''2013-02-07 09:05:00'' = 19
   \<and> timestamp_shape ''2013-02-07 09:05:00''"
proof -
  let ?d = "\<lparr>fullYear = 2013, monthNumber = 2, dayOfMonth = 7, hours = 9, minutes = 5, seconds = 0\<rparr>"
  let ?m = "[(''name'', JStr ''Peter''), (''created'', JDate ?d)]"
  let ?ps = "[(''$name'', JStr ''Peter''), (''$created'', JStr ''2013-02-07 09:05:00'')]"
  have f: "format_date ?d = ''2013-02-07 09:05:00''"
    by (simp add: format_date_def padLeft_def digits.simps)
  have h1: "distinct (map fst ?m)" by simp
  have h2: "make (MakeObject ?m) = Parameters ?ps"
    by (simp add: f)
  have c: "calendar_date ?d" by (simp add: calendar_date_def)
  have mem: "(''created'', JDate ?d) \<in> set ?m \<and> calendar_date ?d" using c by simp
  note all = make_value_mapping [OF h1 h2]
  note dates = all [THEN conjunct2, THEN conjunct2, THEN conjunct1, rule_format, OF mem]
  note built = all [THEN conjunct2, THEN conjunct2, THEN conjunct2, THEN conjunct2, THEN conjunct1]
  have shape: "length ''2013-02-07 09:05:00'' = 19 \<and> timestamp_shape ''2013-02-07 09:05:00''"
    using dates unfolding f by (intro conjI) (elim conjE, assumption)+
  have pb: "make (MakeParameter (add (add new_ParameterBuilder ''name'' (JStr ''Peter'')) ''created'' (JDate ?d))) =
      Parameters ?ps"
    using built by (simp only: foldl.simps prod.case)
  from h1 c h2 pb shape show ?thesis by (intro conjI) (elim conjE, assumption)+
qed

text \<open>
  Claim C6 as stated fails on a date whose year has five digits: it is rendered in 20
  characters.
\<close>

theorem make_date_year_10000_counterexample:
  "make (MakeObject [(''created'',
      JDate \<lparr>fullYear = 10000, monthNumber = 1, dayOfMonth = 1, hours = 0, minutes = 0, seconds = 0\<rparr>)]) =
     Parameters [(''$created'', JStr ''10000-01-01 00:00:00'')]
   \<and> length ''10000-01-01 00:00:00'' = 20
   \<and> \<not> timestamp_shape ''10000-01-01 00:00:00''"
proof -
  have "format_date \<lparr>fullYear = 10000, monthNumber = 1, dayOfMonth = 1, hours = 0, minutes = 0, seconds = 0\<rparr> =
      ''10000-01-01 00:00:00''"
    by (simp add: format_date_def padLeft_def digits.simps)
  moreover have "\<not> timestamp_shape ''10000-01-01 00:00:00''"
    by (auto simp: timestamp_shape_def dest: list_all2_lengthD)
  ultimately show ?thesis by simp
qed

end
